theory Spec2Isabelle
  imports Main "HOL-Library.Word"
begin

section \<open>HiddenOutcomeGame: the contract of \<^verbatim>\<open>contracts/HiddenOutcomeGame.sol\<close>\<close>

subsection \<open>Solidity value types\<close>

type_synonym address = "160 word"
type_synonym uint8 = "8 word"
type_synonym uint32 = "32 word"
type_synonym uint64 = "64 word"
type_synonym uint256 = "256 word"

text \<open>
  A failed call: \<^verbatim>\<open>require(cond, msg)\<close> reverts with \<^verbatim>\<open>Error(msg)\<close>; checked
  arithmetic (the pragma is \<^verbatim>\<open>^0.8.24\<close>) reverts with \<^verbatim>\<open>Panic(0x11)\<close> on overflow.
\<close>

datatype error = Revert string | Panic nat

text \<open>The three failures the specification names, as the revert reasons of the source.\<close>

definition AlreadyJoined :: error where
  "AlreadyJoined = Revert ''Already joined''"

definition NotJoined :: error where
  "NotJoined = Revert ''Join first''"

definition PlayerNotFound :: error where
  "PlayerNotFound = Revert ''Player not found''"

definition ArithmeticOverflow :: error where
  "ArithmeticOverflow = Panic 17"

text \<open>\<^verbatim>\<open>c += 1\<close> on a \<^verbatim>\<open>uint64\<close> storage field, checked.\<close>

definition increment :: "uint64 \<Rightarrow> error + uint64" where
  "increment c = (if unat c + 1 < 2 ^ 64 then Inr (c + 1) else Inl ArithmeticOverflow)"

text \<open>\<^verbatim>\<open>a + b\<close> on \<^verbatim>\<open>uint32\<close>, checked.\<close>

definition checked_add32 :: "uint32 \<Rightarrow> uint32 \<Rightarrow> error + uint32" where
  "checked_add32 a b = (if unat a + unat b < 2 ^ 32 then Inr (a + b) else Inl ArithmeticOverflow)"

subsection \<open>The encrypted-arithmetic library (external)\<close>

text \<open>
  The contract imports \<^verbatim>\<open>FHE\<close>, \<^verbatim>\<open>ebool\<close>, \<^verbatim>\<open>euint8\<close> and \<^verbatim>\<open>euint32\<close> from
  \<^verbatim>\<open>@fhevm/solidity\<close>. An encrypted value is a handle; what it decrypts to is fixed by
  the operation that made it. The model keeps both: the handle (a term recording the
  operation and the handles of its operands, standing for the library's hash of them),
  and the cleartext the handle decrypts to. Arithmetic on \<^verbatim>\<open>euintN\<close> is modulo \<open>2 ^ N\<close>,
  without any revert. The library's own permission checks on operands are not modelled;
  its access-control list is, as the set of (handle, account) pairs granted so far.
\<close>

datatype fhe_op = FheAdd | FheSub | FheLt | FheLe | FheGt | FheGe | FheAnd | FheSelect

datatype handle = Uninitialized | TrivialEncrypt nat nat | Computed fhe_op "handle list"

datatype 'a enc = Enc (handle_of: handle) (decode: 'a)

type_synonym ebool = "bool enc"
type_synonym euint8 = "uint8 enc"
type_synonym euint32 = "uint32 enc"

definition asEuint8 :: "uint8 \<Rightarrow> euint8" where
  "asEuint8 v = Enc (TrivialEncrypt 8 (unat v)) v"

definition asEuint32 :: "uint32 \<Rightarrow> euint32" where
  "asEuint32 v = Enc (TrivialEncrypt 32 (unat v)) v"

definition fhe_add :: "'a::len word enc \<Rightarrow> 'a word enc \<Rightarrow> 'a word enc" where
  "fhe_add a b = Enc (Computed FheAdd [handle_of a, handle_of b]) (decode a + decode b)"

definition fhe_sub :: "'a::len word enc \<Rightarrow> 'a word enc \<Rightarrow> 'a word enc" where
  "fhe_sub a b = Enc (Computed FheSub [handle_of a, handle_of b]) (decode a - decode b)"

definition fhe_lt :: "'a::len word enc \<Rightarrow> 'a word enc \<Rightarrow> ebool" where
  "fhe_lt a b = Enc (Computed FheLt [handle_of a, handle_of b]) (decode a < decode b)"

definition fhe_le :: "'a::len word enc \<Rightarrow> 'a word enc \<Rightarrow> ebool" where
  "fhe_le a b = Enc (Computed FheLe [handle_of a, handle_of b]) (decode a \<le> decode b)"

definition fhe_gt :: "'a::len word enc \<Rightarrow> 'a word enc \<Rightarrow> ebool" where
  "fhe_gt a b = Enc (Computed FheGt [handle_of a, handle_of b]) (decode b < decode a)"

definition fhe_ge :: "'a::len word enc \<Rightarrow> 'a word enc \<Rightarrow> ebool" where
  "fhe_ge a b = Enc (Computed FheGe [handle_of a, handle_of b]) (decode b \<le> decode a)"

definition fhe_and :: "ebool \<Rightarrow> ebool \<Rightarrow> ebool" where
  "fhe_and a b = Enc (Computed FheAnd [handle_of a, handle_of b]) (decode a \<and> decode b)"

definition fhe_select :: "ebool \<Rightarrow> 'a enc \<Rightarrow> 'a enc \<Rightarrow> 'a enc" where
  "fhe_select c a b =
     Enc (Computed FheSelect [handle_of c, handle_of a, handle_of b])
       (if decode c then decode a else decode b)"

type_synonym acl = "(handle \<times> address) set"

definition fhe_allow :: "'a enc \<Rightarrow> address \<Rightarrow> acl \<Rightarrow> acl" where
  "fhe_allow c who perms = insert (handle_of c, who) perms"

subsection \<open>Contract state\<close>

definition STARTING_COINS :: uint32 where "STARTING_COINS = 1000"
definition MIN_REWARD :: uint32 where "MIN_REWARD = 10"
definition REWARD_SPREAD :: uint32 where "REWARD_SPREAD = 91"
definition HEAL_COST :: uint32 where "HEAL_COST = 10"
definition MAX_HEALTH :: uint8 where "MAX_HEALTH = 10"
definition DAMAGE :: uint8 where "DAMAGE = 1"

record Player =
  balance :: euint32
  health :: euint8
  joined :: bool
  battles :: uint64
  victories :: uint64
  heals :: uint64

datatype event =
  PlayerJoined address
  | MonsterFought address bool uint32
  | HealUsed address uint64

text \<open>
  The storage of the contract (\<open>players\<close>, a total mapping whose unwritten entries are
  zero), its own address, and what the calls have left outside it: the library's
  access-control list and the log of events.
\<close>

record Game =
  players :: "address \<Rightarrow> Player"
  address_this :: address
  permissions :: acl
  events :: "event list"

definition zero_player :: Player where
  "zero_player =
     \<lparr>balance = Enc Uninitialized 0, health = Enc Uninitialized 0, joined = False,
      battles = 0, victories = 0, heals = 0\<rparr>"

definition deployed :: "address \<Rightarrow> Game" where
  "deployed this =
     \<lparr>players = (\<lambda>_. zero_player), address_this = this, permissions = {}, events = []\<rparr>"

text \<open>
  What a call sees of its transaction: the caller, and the block. \<^verbatim>\<open>_random\<close> hashes
  \<^verbatim>\<open>blockhash(block.number - 1)\<close>, \<^verbatim>\<open>block.prevrandao\<close>, \<^verbatim>\<open>block.timestamp\<close>, the player
  and the battle count with keccak256; the hash is not computed here, the block supplies
  it as a function of the last two.
\<close>

record Msg =
  sender :: address
  block_hash :: "address \<Rightarrow> uint64 \<Rightarrow> uint256"

subsection \<open>Private functions\<close>

text \<open>
  The private functions keep their names without the leading underscore; \<^verbatim>\<open>_random\<close>
  is \<open>random_scalar\<close>. \<^verbatim>\<open>FHE.allowThis(c)\<close> is \<^verbatim>\<open>FHE.allow(c, address(this))\<close>, so
  \<open>allowPlayer\<close> takes the contract's address.
\<close>

definition reduceHealth :: "euint8 \<Rightarrow> euint8 \<Rightarrow> euint8" where
  "reduceHealth h damage =
     (let below = fhe_le h damage
      in fhe_select below (asEuint8 0) (fhe_sub h damage))"

definition clampHealth :: "euint8 \<Rightarrow> euint8" where
  "clampHealth h =
     (let over = fhe_gt h (asEuint8 MAX_HEALTH)
      in fhe_select over (asEuint8 MAX_HEALTH) h)"

definition allowPlayer :: "Msg \<Rightarrow> address \<Rightarrow> Player \<Rightarrow> acl \<Rightarrow> acl" where
  "allowPlayer m this player perms =
     fhe_allow (health player) (sender m)
       (fhe_allow (health player) this
         (fhe_allow (balance player) (sender m)
           (fhe_allow (balance player) this perms)))"

definition random_scalar :: "Msg \<Rightarrow> address \<Rightarrow> uint64 \<Rightarrow> uint256" where
  "random_scalar m playerAddress n = block_hash m playerAddress n"

subsection \<open>External functions\<close>

definition joinGame :: "Msg \<Rightarrow> Game \<Rightarrow> error + Game" where
  "joinGame m g =
     (let player = players g (sender m) in
      if joined player then Inl (Revert ''Already joined'')
      else
        let player = player\<lparr>joined := True\<rparr>;
            player = player\<lparr>balance := asEuint32 STARTING_COINS\<rparr>;
            player = player\<lparr>health := asEuint8 MAX_HEALTH\<rparr>;
            player = player\<lparr>battles := 0\<rparr>;
            player = player\<lparr>victories := 0\<rparr>;
            player = player\<lparr>heals := 0\<rparr>
        in Inr (g\<lparr>players := (players g)(sender m := player),
                  permissions := allowPlayer m (address_this g) player (permissions g),
                  events := events g @ [PlayerJoined (sender m)]\<rparr>))"

definition fightMonster :: "Msg \<Rightarrow> Game \<Rightarrow> error + Game" where
  "fightMonster m g =
     (let player = players g (sender m) in
      if \<not> joined player then Inl (Revert ''Join first'')
      else
        let rand = random_scalar m (sender m) (battles player);
            victory = (rand mod 2 = 0)
        in case (if victory then checked_add32 (ucast (rand mod ucast REWARD_SPREAD)) MIN_REWARD
                 else Inr 0) of
             Inl e \<Rightarrow> Inl e
           | Inr reward \<Rightarrow>
               (case (if victory then
                        (let player =
                               player\<lparr>balance := fhe_add (balance player) (asEuint32 reward)\<rparr>
                         in case increment (victories player) of
                              Inl e \<Rightarrow> Inl e
                            | Inr v \<Rightarrow> Inr (player\<lparr>victories := v\<rparr>))
                      else
                        (let damage = asEuint8 DAMAGE
                         in Inr (player\<lparr>health := reduceHealth (health player) damage\<rparr>))) of
                  Inl e \<Rightarrow> Inl e
                | Inr player \<Rightarrow>
                    (case increment (battles player) of
                       Inl e \<Rightarrow> Inl e
                     | Inr b \<Rightarrow>
                         (let player = player\<lparr>battles := b\<rparr>
                          in Inr (g\<lparr>players := (players g)(sender m := player),
                                    permissions :=
                                      allowPlayer m (address_this g) player (permissions g),
                                    events :=
                                      events g @ [MonsterFought (sender m) victory reward]\<rparr>)))))"

definition heal :: "Msg \<Rightarrow> Game \<Rightarrow> error + Game" where
  "heal m g =
     (let player = players g (sender m) in
      if \<not> joined player then Inl (Revert ''Join first'')
      else
        let hasHealthRoom = fhe_lt (health player) (asEuint8 MAX_HEALTH);
            hasCoins = fhe_ge (balance player) (asEuint32 HEAL_COST);
            canHeal = fhe_and hasHealthRoom hasCoins;
            healedHealth = clampHealth (fhe_add (health player) (asEuint8 1));
            player = player\<lparr>health := fhe_select canHeal healedHealth (health player)\<rparr>;
            player = player\<lparr>balance :=
                       fhe_select canHeal (fhe_sub (balance player) (asEuint32 HEAL_COST))
                         (balance player)\<rparr>
        in case increment (heals player) of
             Inl e \<Rightarrow> Inl e
           | Inr h \<Rightarrow>
               (let player = player\<lparr>heals := h\<rparr>
                in Inr (g\<lparr>players := (players g)(sender m := player),
                          permissions := allowPlayer m (address_this g) player (permissions g),
                          events := events g @ [HealUsed (sender m) (heals player)]\<rparr>)))"

definition getEncryptedBalance :: "Game \<Rightarrow> address \<Rightarrow> error + euint32" where
  "getEncryptedBalance g playerAddress =
     (if \<not> joined (players g playerAddress) then Inl (Revert ''Player not found'')
      else Inr (balance (players g playerAddress)))"

definition getEncryptedHealth :: "Game \<Rightarrow> address \<Rightarrow> error + euint8" where
  "getEncryptedHealth g playerAddress =
     (if \<not> joined (players g playerAddress) then Inl (Revert ''Player not found'')
      else Inr (health (players g playerAddress)))"

definition getPlayerStats :: "Game \<Rightarrow> address \<Rightarrow> error + (uint64 \<times> uint64 \<times> uint64)" where
  "getPlayerStats g playerAddress =
     (let player = players g playerAddress in
      if \<not> joined player then Inl (Revert ''Player not found'')
      else Inr (battles player, victories player, heals player))"

definition hasJoined :: "Game \<Rightarrow> address \<Rightarrow> bool" where
  "hasJoined g playerAddress = joined (players g playerAddress)"

subsection \<open>Transactions\<close>

text \<open>
  The state-changing entry points, and a transaction as the ledger runs it: a call that
  reverts leaves the state as it was. The states the contract can be in are those
  \<open>run\<close> reaches from \<open>deployed\<close>.
\<close>

datatype call = JoinGame | FightMonster | Heal

fun exec :: "call \<Rightarrow> Msg \<Rightarrow> Game \<Rightarrow> error + Game" where
  "exec JoinGame m g = joinGame m g"
| "exec FightMonster m g = fightMonster m g"
| "exec Heal m g = heal m g"

definition transact :: "Game \<Rightarrow> Msg \<times> call \<Rightarrow> Game" where
  "transact g tx = (case exec (snd tx) (fst tx) g of Inl e \<Rightarrow> g | Inr g' \<Rightarrow> g')"

definition run :: "Game \<Rightarrow> (Msg \<times> call) list \<Rightarrow> Game" where
  "run g txs = foldl transact g txs"

text \<open>The callers of \<^verbatim>\<open>joinGame\<close> in a list of transactions, in order.\<close>

definition joiners :: "(Msg \<times> call) list \<Rightarrow> address list" where
  "joiners txs = map (\<lambda>tx. sender (fst tx)) (filter (\<lambda>tx. snd tx = JoinGame) txs)"

subsection \<open>Concrete transactions and states\<close>

text \<open>
  One player, in a block whose hash makes her win with the largest reward (90 is even,
  and \<open>90 mod 91 + 10 = 100\<close>), and in a block that makes her lose (7 is odd).
\<close>

definition alice_wins :: Msg where
  "alice_wins = \<lparr>sender = 1, block_hash = (\<lambda>_ _. 90)\<rparr>"

definition alice_loses :: Msg where
  "alice_loses = \<lparr>sender = 1, block_hash = (\<lambda>_ _. 7)\<rparr>"

definition enrolled :: Game where
  "enrolled = run (deployed 0) [(alice_wins, JoinGame)]"

definition wounded :: Game where
  "wounded = run (deployed 0) [(alice_wins, JoinGame), (alice_loses, FightMonster)]"

text \<open>Joining and then healing \<open>2 ^ 64 - 1\<close> times; joining and then winning 42949662 times.\<close>

definition heal_marathon :: "(Msg \<times> call) list" where
  "heal_marathon = (alice_wins, JoinGame) # replicate (2 ^ 64 - 1) (alice_wins, Heal)"

definition winning_streak :: "(Msg \<times> call) list" where
  "winning_streak = (alice_wins, JoinGame) # replicate 42949662 (alice_wins, FightMonster)"

section \<open>Arithmetic of the calls\<close>

lemmas fhe_defs = asEuint8_def asEuint32_def fhe_add_def fhe_sub_def fhe_lt_def fhe_le_def
  fhe_gt_def fhe_ge_def fhe_and_def fhe_select_def

lemmas const_defs = STARTING_COINS_def MIN_REWARD_def REWARD_SPREAD_def HEAL_COST_def
  MAX_HEALTH_def DAMAGE_def

lemma reward_residue:
  fixes rand :: uint256
  shows "unat (ucast (rand mod ucast REWARD_SPREAD) :: uint32) = unat rand mod 91"
proof -
  have "unat (rand mod 91) = unat rand mod 91"
    by (simp add: unat_mod)
  moreover have "unat rand mod 91 < 2 ^ 32"
    by (rule less_trans [of _ 91]) simp_all
  ultimately show ?thesis
    by (simp add: const_defs unsigned_ucast_eq take_bit_nat_eq_self)
qed

lemma victory_even:
  fixes rand :: uint256
  shows "(rand mod 2 = 0) = even (unat rand)"
proof -
  have "(rand mod 2 = 0) = (unat (rand mod 2) = 0)"
    by (simp add: unat_eq_0)
  also have "\<dots> = (unat rand mod 2 = 0)"
    by (simp add: unat_mod)
  finally show ?thesis by presburger
qed

lemma increment_Inr: "unat c + 1 < 2 ^ 64 \<Longrightarrow> increment c = Inr (c + 1)"
  by (simp add: increment_def)

lemma increment_cases: "increment c = Inr d \<Longrightarrow> d = c + 1 \<and> unat d = unat c + 1"
  by (auto simp: increment_def unat_word_ariths split: if_splits)

text \<open>The checked addition of the reward never panics: the residue is below 91.\<close>

lemma reward_no_overflow:
  fixes rand :: uint256
  shows "checked_add32 (ucast (rand mod ucast REWARD_SPREAD)) MIN_REWARD
         = Inr (ucast (rand mod ucast REWARD_SPREAD) + MIN_REWARD)"
proof -
  have "unat rand mod 91 < 91" by simp
  then show ?thesis
    unfolding checked_add32_def reward_residue by (simp add: MIN_REWARD_def)
qed

lemma unat_reward:
  fixes rand :: uint256
  shows "unat (ucast (rand mod ucast REWARD_SPREAD) + MIN_REWARD :: uint32) = unat rand mod 91 + 10"
proof -
  have "unat rand mod 91 < 91" by simp
  then have "unat rand mod 91 + 10 < 2 ^ 32" by simp
  then show ?thesis
    by (simp add: unat_word_ariths reward_residue MIN_REWARD_def)
qed

lemma decode_reduceHealth:
  "unat (decode (reduceHealth h (asEuint8 DAMAGE))) = unat (decode h) - 1"
  apply (simp add: reduceHealth_def fhe_defs const_defs Let_def)
  apply unat_arith
  done

lemma uint_reduceHealth:
  "uint (decode (reduceHealth h (asEuint8 DAMAGE))) = max 0 (uint (decode h) - 1)"
  apply (simp add: reduceHealth_def fhe_defs const_defs Let_def)
  apply uint_arith
  done

lemma decode_clampHealth:
  "decode (clampHealth h) = (if 10 < decode h then 10 else decode h)"
  by (simp add: clampHealth_def fhe_defs const_defs Let_def)

lemma decode_heal_select:
  "decode (fhe_select (fhe_and (fhe_lt h (asEuint8 MAX_HEALTH)) (fhe_ge b (asEuint32 HEAL_COST)))
             (clampHealth (fhe_add h (asEuint8 1))) h) =
     (if decode h < 10 \<and> 10 \<le> decode b
      then (if 10 < decode h + 1 then 10 else decode h + 1)
      else decode h)"
  by (simp add: fhe_defs const_defs decode_clampHealth)

lemma decode_heal_debit:
  "decode (fhe_select (fhe_and (fhe_lt h (asEuint8 MAX_HEALTH)) (fhe_ge b (asEuint32 HEAL_COST)))
             (fhe_sub b (asEuint32 HEAL_COST)) b) =
     (if decode h < 10 \<and> 10 \<le> decode b then decode b - 10 else decode b)"
  by (simp add: fhe_defs const_defs)

lemma decode_healed:
  fixes h :: uint8
  assumes "unat h \<le> 10"
  shows "unat (if h < 10 \<and> c then (if 10 < h + 1 then 10 else h + 1) else h) \<le> 10"
  using assms by unat_arith

lemma heal_balance_exact:
  fixes b :: uint32
  assumes "10 \<le> b"
  shows "unat (b - 10) = unat b - 10"
  using assms by unat_arith

lemma heal_health_exact:
  fixes h :: uint8
  assumes "h < 10"
  shows "unat (if 10 < h + 1 then 10 else h + 1) = min (unat h + 1) 10"
proof -
  from assms have "unat h < 10" by (simp add: word_less_nat_alt)
  then have "unat (h + 1) = unat h + 1" by (simp add: unat_word_ariths)
  with \<open>unat h < 10\<close> show ?thesis by (simp add: word_less_nat_alt)
qed

section \<open>What a successful call leaves behind\<close>

lemma heal_transact:
  assumes "joined (players g (sender m))" and "unat (heals (players g (sender m))) < 2 ^ 64 - 1"
  shows "heal m g = Inr (transact g (m, Heal))"
    and "players (transact g (m, Heal)) (sender m) = (players g (sender m))
          \<lparr>health := fhe_select
              (fhe_and (fhe_lt (health (players g (sender m))) (asEuint8 MAX_HEALTH))
                 (fhe_ge (balance (players g (sender m))) (asEuint32 HEAL_COST)))
              (clampHealth (fhe_add (health (players g (sender m))) (asEuint8 1)))
              (health (players g (sender m))),
            balance := fhe_select
              (fhe_and (fhe_lt (health (players g (sender m))) (asEuint8 MAX_HEALTH))
                 (fhe_ge (balance (players g (sender m))) (asEuint32 HEAL_COST)))
              (fhe_sub (balance (players g (sender m))) (asEuint32 HEAL_COST))
              (balance (players g (sender m))),
            heals := heals (players g (sender m)) + 1\<rparr>"
    and "events (transact g (m, Heal))
           = events g @ [HealUsed (sender m) (heals (players g (sender m)) + 1)]"
  using assms by (simp_all add: transact_def heal_def Let_def increment_def)

lemma fight_transact:
  assumes "joined (players g (sender m))"
    and "unat (battles (players g (sender m))) < 2 ^ 64 - 1"
    and "unat (victories (players g (sender m))) \<le> unat (battles (players g (sender m)))"
    and "rand = random_scalar m (sender m) (battles (players g (sender m)))"
  shows "fightMonster m g = Inr (transact g (m, FightMonster))"
    and "players (transact g (m, FightMonster)) (sender m) =
          (if even (unat rand)
           then (players g (sender m))
             \<lparr>balance := fhe_add (balance (players g (sender m)))
                           (asEuint32 (ucast (rand mod ucast REWARD_SPREAD) + MIN_REWARD)),
               victories := victories (players g (sender m)) + 1,
               battles := battles (players g (sender m)) + 1\<rparr>
           else (players g (sender m))
             \<lparr>health := reduceHealth (health (players g (sender m))) (asEuint8 DAMAGE),
               battles := battles (players g (sender m)) + 1\<rparr>)"
    and "events (transact g (m, FightMonster)) = events g @
          [MonsterFought (sender m) (even (unat rand))
             (if even (unat rand) then ucast (rand mod ucast REWARD_SPREAD) + MIN_REWARD else 0)]"
proof -
  have 1: "unat (victories (players g (sender m))) + 1 < 2 ^ 64"
    and 2: "unat (battles (players g (sender m))) + 1 < 2 ^ 64"
    using assms(2,3) by simp_all
  show "fightMonster m g = Inr (transact g (m, FightMonster))"
    using assms(1)
    by (cases "even (unat rand)")
       (simp_all add: transact_def fightMonster_def Let_def increment_Inr [OF 1]
          increment_Inr [OF 2] reward_no_overflow victory_even)
  show "players (transact g (m, FightMonster)) (sender m) =
          (if even (unat rand)
           then (players g (sender m))
             \<lparr>balance := fhe_add (balance (players g (sender m)))
                           (asEuint32 (ucast (rand mod ucast REWARD_SPREAD) + MIN_REWARD)),
               victories := victories (players g (sender m)) + 1,
               battles := battles (players g (sender m)) + 1\<rparr>
           else (players g (sender m))
             \<lparr>health := reduceHealth (health (players g (sender m))) (asEuint8 DAMAGE),
               battles := battles (players g (sender m)) + 1\<rparr>)"
    using assms(1)
    by (simp add: transact_def fightMonster_def Let_def increment_Inr [OF 1]
          increment_Inr [OF 2] reward_no_overflow victory_even assms(4))
  show "events (transact g (m, FightMonster)) = events g @
          [MonsterFought (sender m) (even (unat rand))
             (if even (unat rand) then ucast (rand mod ucast REWARD_SPREAD) + MIN_REWARD else 0)]"
    using assms(1)
    by (simp add: transact_def fightMonster_def Let_def increment_Inr [OF 1]
          increment_Inr [OF 2] reward_no_overflow victory_even assms(4))
qed

section \<open>Sequences of transactions\<close>

lemma run_Nil: "run g [] = g"
  by (simp add: run_def)

lemma run_Cons: "run g (tx # txs) = run (transact g tx) txs"
  by (simp add: run_def)

lemma run_snoc: "run g (txs @ [tx]) = transact (run g txs) tx"
  by (simp add: run_def)

lemma run_replicate_Suc: "run g (replicate (Suc n) tx) = transact (run g (replicate n tx)) tx"
proof -
  have "replicate (Suc n) tx = replicate n tx @ [tx]"
    by (simp add: replicate_append_same)
  then show ?thesis
    by (simp only: run_snoc)
qed

lemma transact_health:
  assumes "unat (decode (health (players g a))) \<le> 10"
  shows "unat (decode (health (players (transact g tx) a))) \<le> 10"
proof (cases tx)
  case (Pair m c)
  show ?thesis
  proof (cases c)
    case JoinGame
    with Pair assms show ?thesis
      by (simp add: transact_def joinGame_def Let_def fhe_defs const_defs)
  next
    case FightMonster
    have "unat (decode (reduceHealth (health (players g a)) (asEuint8 DAMAGE))) \<le> 10"
      using assms by (simp add: decode_reduceHealth)
    with Pair FightMonster assms show ?thesis
      by (auto simp: transact_def fightMonster_def Let_def reward_no_overflow
          split: sum.splits if_splits)
  next
    case Heal
    have "unat (decode (fhe_select
             (fhe_and (fhe_lt (health (players g a)) (asEuint8 MAX_HEALTH))
                (fhe_ge (balance (players g a)) (asEuint32 HEAL_COST)))
             (clampHealth (fhe_add (health (players g a)) (asEuint8 1)))
             (health (players g a)))) \<le> 10"
      unfolding decode_heal_select using assms by (rule decode_healed)
    with Pair Heal assms show ?thesis
      by (auto simp: transact_def heal_def Let_def split: sum.splits if_splits)
  qed
qed

lemma run_health:
  "unat (decode (health (players g a))) \<le> 10 \<Longrightarrow> unat (decode (health (players (run g txs) a))) \<le> 10"
  by (induction txs arbitrary: g) (simp_all add: run_Nil run_Cons transact_health)

lemma transact_victories:
  assumes "unat (victories (players g a)) \<le> unat (battles (players g a))"
  shows "unat (victories (players (transact g tx) a)) \<le> unat (battles (players (transact g tx) a))"
proof (cases tx)
  case (Pair m c)
  show ?thesis
  proof (cases c)
    case JoinGame
    with Pair assms show ?thesis
      by (simp add: transact_def joinGame_def Let_def)
  next
    case FightMonster
    with Pair assms show ?thesis
      by (auto simp: transact_def fightMonster_def Let_def reward_no_overflow
          dest!: increment_cases split: sum.splits if_splits)
  next
    case Heal
    with Pair  assms show ?thesis
      by (auto simp: transact_def heal_def Let_def split: sum.splits if_splits)
  qed
qed

lemma run_victories:
  "unat (victories (players g a)) \<le> unat (battles (players g a)) \<Longrightarrow>
   unat (victories (players (run g txs) a)) \<le> unat (battles (players (run g txs) a))"
  by (induction txs arbitrary: g) (simp_all add: run_Nil run_Cons transact_victories)

lemma transact_joined:
  "joined (players (transact g (m, c)) a) = (joined (players g a) \<or> (c = JoinGame \<and> sender m = a))"
  by (cases c)
     (auto simp: transact_def joinGame_def fightMonster_def heal_def Let_def reward_no_overflow
       split: sum.splits if_splits)

lemma run_joined:
  "joined (players (run g txs) a) = (joined (players g a) \<or> a \<in> set (joiners txs))"
proof (induction txs arbitrary: g)
  case Nil
  show ?case by (simp add: run_Nil joiners_def)
next
  case (Cons tx txs)
  obtain m c where tx: "tx = (m, c)" by (cases tx)
  show ?case
    unfolding run_Cons Cons.IH tx transact_joined
    by (auto simp: joiners_def)
qed


subsection \<open>Repeated calls\<close>

lemma heal_repeat:
  assumes "joined (players g (sender m))"
    and "unat (heals (players g (sender m))) + n < 2 ^ 64"
  shows "joined (players (run g (replicate n (m, Heal))) (sender m))
       \<and> unat (heals (players (run g (replicate n (m, Heal))) (sender m)))
           = unat (heals (players g (sender m))) + n"
  using assms(2)
proof (induction n)
  case 0
  with assms(1) show ?case by (simp add: run_Nil)
next
  case (Suc n)
  let ?g = "run g (replicate n (m, Heal))"
  from Suc have j: "joined (players ?g (sender m))"
    and h: "unat (heals (players ?g (sender m))) = unat (heals (players g (sender m))) + n"
    by simp_all
  from h Suc.prems have below: "unat (heals (players ?g (sender m))) < 2 ^ 64 - 1"
    by simp
  from below have "unat (heals (players ?g (sender m)) + 1) = unat (heals (players ?g (sender m))) + 1"
    by (simp add: unat_word_ariths)
  then show ?case
    unfolding run_replicate_Suc using j
    by (simp add: heal_transact(2) [OF j below] h)
qed

lemma fight_repeat:
  assumes "joined (players g (sender m))"
    and "\<And>a n. block_hash m a n = 90"
    and "unat (victories (players g (sender m))) \<le> unat (battles (players g (sender m)))"
    and "unat (battles (players g (sender m))) + n < 2 ^ 64"
  shows "joined (players (run g (replicate n (m, FightMonster))) (sender m))
       \<and> unat (battles (players (run g (replicate n (m, FightMonster))) (sender m)))
           = unat (battles (players g (sender m))) + n
       \<and> decode (balance (players (run g (replicate n (m, FightMonster))) (sender m)))
           = decode (balance (players g (sender m))) + of_nat (100 * n)"
  using assms(4)
proof (induction n)
  case 0
  with assms(1) show ?case by (simp add: run_Nil)
next
  case (Suc n)
  let ?g = "run g (replicate n (m, FightMonster))"
  from Suc have j: "joined (players ?g (sender m))"
    and b: "unat (battles (players ?g (sender m))) = unat (battles (players g (sender m))) + n"
    and c: "decode (balance (players ?g (sender m)))
             = decode (balance (players g (sender m))) + of_nat (100 * n)"
    by simp_all
  from b Suc.prems have below: "unat (battles (players ?g (sender m))) < 2 ^ 64 - 1"
    by simp
  have vb: "unat (victories (players ?g (sender m))) \<le> unat (battles (players ?g (sender m)))"
    using assms(3) by (rule run_victories)
  have r: "random_scalar m (sender m) (battles (players ?g (sender m))) = 90"
    by (simp add: random_scalar_def assms(2))
  from below have "unat (battles (players ?g (sender m)) + 1) = unat (battles (players ?g (sender m))) + 1"
    by (simp add: unat_word_ariths)
  then show ?case
    unfolding run_replicate_Suc using j
    by (simp add: fight_transact(2) [OF j below vb refl] r b c fhe_defs const_defs)
qed

subsection \<open>The concrete states\<close>

lemma sender_alice: "sender alice_wins = 1" "sender alice_loses = 1"
  by (simp_all add: alice_wins_def alice_loses_def)

lemma scalar_alice:
  "random_scalar alice_wins a n = 90" "random_scalar alice_loses a n = 7"
  by (simp_all add: random_scalar_def alice_wins_def alice_loses_def)

lemma enrolled_player:
  "players enrolled 1 =
     \<lparr>balance = asEuint32 1000, health = asEuint8 10, joined = True,
      battles = 0, victories = 0, heals = 0\<rparr>"
  by (simp add: enrolled_def run_def transact_def joinGame_def Let_def deployed_def
      zero_player_def sender_alice const_defs)

lemma wounded_player:
  "players wounded 1 =
     \<lparr>balance = asEuint32 1000, health = reduceHealth (asEuint8 10) (asEuint8 1), joined = True,
      battles = 1, victories = 0, heals = 0\<rparr>"
proof -
  have w: "wounded = transact enrolled (alice_loses, FightMonster)"
    by (simp add: wounded_def enrolled_def run_def)
  show ?thesis
    unfolding w
    by (simp add: transact_def fightMonster_def Let_def enrolled_player sender_alice scalar_alice
        victory_even increment_def const_defs)
qed

lemma wounded_values:
  "decode (health (players wounded 1)) = 9" "decode (balance (players wounded 1)) = 1000"
  by (simp_all add: wounded_player reduceHealth_def fhe_defs word_le_nat_alt)

section \<open>The claims\<close>

subsection \<open>C1: heal\<close>

text \<open>
  Claim C1, as the code has it. For a joined player whose \<open>heals\<close> counter is below
  \<open>2 ^ 64 - 1\<close>, a call to \<open>heal\<close> succeeds and adds exactly 1 to \<open>heals\<close>. If the decoded
  health before is below 10 and the decoded balance before is at least 10, the decoded
  balance afterwards is the balance before minus 10 and the decoded health is
  \<open>min (health before + 1) 10\<close>; otherwise both decode as before. In either case the
  call does not revert: the new ciphertexts are results of \<open>FHE.select\<close> whose last
  operand is the old ciphertext. The flag \<open>joined\<close> and the other two counters stay.
\<close>

theorem heal_effect:
  assumes "joined (players g (sender m))"
    and "unat (heals (players g (sender m))) < 2 ^ 64 - 1"
  shows "\<exists>g'. heal m g = Inr g'
            \<and> unat (heals (players g' (sender m))) = unat (heals (players g (sender m))) + 1
            \<and> (if unat (decode (health (players g (sender m)))) < 10
                  \<and> 10 \<le> unat (decode (balance (players g (sender m))))
               then unat (decode (balance (players g' (sender m))))
                      = unat (decode (balance (players g (sender m)))) - 10
                  \<and> unat (decode (health (players g' (sender m))))
                      = min (unat (decode (health (players g (sender m)))) + 1) 10
               else decode (balance (players g' (sender m))) = decode (balance (players g (sender m)))
                  \<and> decode (health (players g' (sender m))) = decode (health (players g (sender m))))
            \<and> (\<exists>c x. balance (players g' (sender m)) = fhe_select c x (balance (players g (sender m))))
            \<and> (\<exists>c x. health (players g' (sender m)) = fhe_select c x (health (players g (sender m))))
            \<and> joined (players g' (sender m))
            \<and> battles (players g' (sender m)) = battles (players g (sender m))
            \<and> victories (players g' (sender m)) = victories (players g (sender m))"
proof -
  let ?p = "players g (sender m)"
  let ?g' = "transact g (m, Heal)"
  note ok = heal_transact(1) [OF assms] and p' = heal_transact(2) [OF assms]
  have lt: "(unat (decode (health ?p)) < 10) = (decode (health ?p) < 10)"
    and ge: "(10 \<le> unat (decode (balance ?p))) = (10 \<le> decode (balance ?p))"
    by (simp_all add: word_less_nat_alt word_le_nat_alt)
  have counter: "unat (heals (players ?g' (sender m))) = unat (heals ?p) + 1"
    using assms(2) by (simp add: p' unat_word_ariths)
  have amounts: "if unat (decode (health ?p)) < 10 \<and> 10 \<le> unat (decode (balance ?p))
      then unat (decode (balance (players ?g' (sender m)))) = unat (decode (balance ?p)) - 10
         \<and> unat (decode (health (players ?g' (sender m)))) = min (unat (decode (health ?p)) + 1) 10
      else decode (balance (players ?g' (sender m))) = decode (balance ?p)
         \<and> decode (health (players ?g' (sender m))) = decode (health ?p)"
    unfolding lt ge
    by (simp add: p' decode_heal_debit decode_heal_select heal_balance_exact heal_health_exact)
  have by_select: "\<exists>c x. balance (players ?g' (sender m)) = fhe_select c x (balance ?p)"
    "\<exists>c x. health (players ?g' (sender m)) = fhe_select c x (health ?p)"
    unfolding p' by (simp, blast)+
  have frame: "joined (players ?g' (sender m))" "battles (players ?g' (sender m)) = battles ?p"
    "victories (players ?g' (sender m)) = victories ?p"
    using assms(1) by (simp_all add: p')
  from ok counter amounts by_select frame show ?thesis
    by blast
qed

text \<open>
  C1 at a concrete state: after joining and losing one fight (health 9, balance 1000),
  healing costs 10 coins and restores the health to 10.
\<close>

theorem heal_effect_witness:
  "joined (players wounded (sender alice_wins))
   \<and> unat (heals (players wounded (sender alice_wins))) < 2 ^ 64 - 1
   \<and> (\<exists>g'. heal alice_wins wounded = Inr g'
         \<and> unat (heals (players g' (sender alice_wins))) = 1
         \<and> unat (decode (balance (players g' (sender alice_wins)))) = 990
         \<and> unat (decode (health (players g' (sender alice_wins)))) = 10)"
proof -
  have j: "joined (players wounded (sender alice_wins))"
    and b: "unat (heals (players wounded (sender alice_wins))) < 2 ^ 64 - 1"
    by (simp_all add: sender_alice wounded_player)
  have v: "unat (decode (health (players wounded (sender alice_wins)))) = 9"
    "unat (decode (balance (players wounded (sender alice_wins)))) = 1000"
    "unat (heals (players wounded (sender alice_wins))) = 0"
    by (simp_all add: sender_alice wounded_values) (simp add: wounded_player)
  from heal_effect [OF j b] obtain g' where "heal alice_wins wounded = Inr g'"
    and "unat (heals (players g' (sender alice_wins))) = 1"
    and "unat (decode (balance (players g' (sender alice_wins)))) = 990"
    and "unat (decode (health (players g' (sender alice_wins)))) = 10"
    unfolding v by auto
  with j b show ?thesis by blast
qed

text \<open>
  C1 as stated fails where the checked increment of \<open>heals\<close> overflows. The state is
  reachable: after joining and \<open>2 ^ 64 - 1\<close> calls of \<open>heal\<close> the player is joined, her
  counter is \<open>2 ^ 64 - 1\<close>, and the next call reverts with the arithmetic panic instead
  of counting.
\<close>

theorem heal_overflow:
  "joined (players (run (deployed 0) heal_marathon) (sender alice_wins))
   \<and> unat (heals (players (run (deployed 0) heal_marathon) (sender alice_wins))) = 2 ^ 64 - 1
   \<and> heal alice_wins (run (deployed 0) heal_marathon) = Inl ArithmeticOverflow"
proof -
  let ?g = "transact (deployed 0) (alice_wins, JoinGame)"
  have j: "joined (players ?g (sender alice_wins))" and z: "heals (players ?g (sender alice_wins)) = 0"
    by (simp_all add: transact_def joinGame_def Let_def deployed_def zero_player_def)
  have "unat (heals (players ?g (sender alice_wins))) + (2 ^ 64 - 1) < 2 ^ 64"
    by (simp add: z)
  from heal_repeat [OF j this]
  have 1: "joined (players (run (deployed 0) heal_marathon) (sender alice_wins))"
    and 2: "unat (heals (players (run (deployed 0) heal_marathon) (sender alice_wins))) = 2 ^ 64 - 1"
    by (simp_all add: heal_marathon_def run_Cons z)
  from 1 2 have "heal alice_wins (run (deployed 0) heal_marathon) = Inl ArithmeticOverflow"
    by (simp add: heal_def Let_def increment_def)
  with 1 2 show ?thesis by blast
qed

subsection \<open>C2: health stays within 0 and 10\<close>

text \<open>
  Claim C2. In every state reached from deployment by any sequence of transactions
  (\<open>joinGame\<close>, \<open>fightMonster\<close>, \<open>heal\<close>, by any callers, reverted ones included), the
  health of every player record decodes to a value between 0 and 10 inclusive.
\<close>

theorem health_in_range:
  "0 \<le> uint (decode (health (players (run (deployed this) txs) a)))
   \<and> uint (decode (health (players (run (deployed this) txs) a))) \<le> 10"
proof -
  have "unat (decode (health (players (deployed this) a))) \<le> 10"
    by (simp add: deployed_def zero_player_def)
  then have "unat (decode (health (players (run (deployed this) txs) a))) \<le> 10"
    by (rule run_health)
  then have "int (unat (decode (health (players (run (deployed this) txs) a)))) \<le> 10"
    by linarith
  then show ?thesis by simp
qed

subsection \<open>C3: fightMonster\<close>

text \<open>
  Claim C3, as the code has it. In a reachable state, for a joined player whose
  \<open>battles\<close> counter is below \<open>2 ^ 64 - 1\<close>, a call to \<open>fightMonster\<close> succeeds and adds
  exactly 1 to \<open>battles\<close>; the event it emits declares victory iff the scalar is even,
  and \<open>victories\<close> grows by 1 on victory and stays on defeat. On victory the reward is
  \<open>scalar mod 91 + 10\<close>, between 10 and 100, and the balance afterwards decodes to
  balance before plus reward modulo \<open>2 ^ 32\<close>: it lies between balance before + 10 and
  balance before + 100 whenever that sum is below \<open>2 ^ 32\<close>. On defeat the health
  afterwards decodes to \<open>max 0 (health before - 1)\<close>.
\<close>

theorem fight_effect:
  assumes "g = run (deployed this) txs"
    and "joined (players g (sender m))"
    and "unat (battles (players g (sender m))) < 2 ^ 64 - 1"
    and "rand = random_scalar m (sender m) (battles (players g (sender m)))"
    and "reward = (if even (unat rand) then unat rand mod 91 + 10 else 0)"
  shows "\<exists>g'. fightMonster m g = Inr g'
          \<and> unat (battles (players g' (sender m))) = unat (battles (players g (sender m))) + 1
          \<and> (\<exists>r. last (events g') = MonsterFought (sender m) (even (unat rand)) r \<and> unat r = reward)
          \<and> unat (victories (players g' (sender m)))
               = unat (victories (players g (sender m))) + (if even (unat rand) then 1 else 0)
          \<and> (even (unat rand) \<longrightarrow>
                10 \<le> reward \<and> reward \<le> 100
              \<and> unat (decode (balance (players g' (sender m))))
                  = (unat (decode (balance (players g (sender m)))) + reward) mod 2 ^ 32
              \<and> (unat (decode (balance (players g (sender m)))) + reward < 2 ^ 32 \<longrightarrow>
                    unat (decode (balance (players g' (sender m))))
                      = unat (decode (balance (players g (sender m)))) + reward))
          \<and> (odd (unat rand) \<longrightarrow>
                uint (decode (health (players g' (sender m))))
                  = max 0 (uint (decode (health (players g (sender m)))) - 1))"
proof -
  let ?p = "players g (sender m)"
  have "unat (victories (players (deployed this) (sender m)))
          \<le> unat (battles (players (deployed this) (sender m)))"
    by (simp add: deployed_def zero_player_def)
  then have vb: "unat (victories ?p) \<le> unat (battles ?p)"
    unfolding assms(1) by (rule run_victories)
  let ?g' = "transact g (m, FightMonster)"
  note ok = fight_transact(1) [OF assms(2,3) vb assms(4)]
    and p' = fight_transact(2) [OF assms(2,3) vb assms(4)]
    and ev = fight_transact(3) [OF assms(2,3) vb assms(4)]
  have count: "unat (battles (players ?g' (sender m))) = unat (battles ?p) + 1"
    using assms(3) by (simp add: p' unat_word_ariths)
  have emitted: "\<exists>r. last (events ?g') = MonsterFought (sender m) (even (unat rand)) r \<and> unat r = reward"
    by (simp add: ev assms(5) unat_reward)
  have wins: "unat (victories (players ?g' (sender m)))
               = unat (victories ?p) + (if even (unat rand) then 1 else 0)"
    using assms(3) vb by (simp add: p' unat_word_ariths)
  have bounds: "even (unat rand) \<longrightarrow> 10 \<le> reward \<and> reward \<le> 100"
  proof -
    have "unat rand mod 91 < 91" by simp
    then have "unat rand mod 91 \<le> 90" by linarith
    then show ?thesis by (simp add: assms(5))
  qed
  have credit: "even (unat rand) \<longrightarrow> unat (decode (balance (players ?g' (sender m))))
                  = (unat (decode (balance ?p)) + reward) mod 2 ^ 32"
  proof -
    have "unat (x + y) = (unat x + unat y) mod 2 ^ 32" for x y :: uint32
      by (simp add: unat_word_ariths)
    from this [of "decode (balance ?p)" "ucast (rand mod ucast REWARD_SPREAD) + MIN_REWARD"]
    show ?thesis
      by (simp add: p' fhe_defs assms(5) unat_reward)
  qed
  then have exact: "even (unat rand) \<longrightarrow> (unat (decode (balance ?p)) + reward < 2 ^ 32 \<longrightarrow>
                    unat (decode (balance (players ?g' (sender m)))) = unat (decode (balance ?p)) + reward)"
    by simp
  have damage: "odd (unat rand) \<longrightarrow> uint (decode (health (players ?g' (sender m))))
                  = max 0 (uint (decode (health ?p)) - 1)"
    by (simp add: p' uint_reduceHealth)
  from ok count emitted wins bounds credit exact damage show ?thesis
    by blast
qed

text \<open>
  C3 at a concrete state: a freshly joined player wins 100 coins with scalar 90, and
  loses one point of health with scalar 7.
\<close>

theorem fight_effect_witness:
  "enrolled = run (deployed 0) [(alice_wins, JoinGame)]
   \<and> joined (players enrolled (sender alice_wins))
   \<and> unat (battles (players enrolled (sender alice_wins))) < 2 ^ 64 - 1
   \<and> (\<exists>g'. fightMonster alice_wins enrolled = Inr g'
         \<and> unat (battles (players g' (sender alice_wins))) = 1
         \<and> unat (victories (players g' (sender alice_wins))) = 1
         \<and> unat (decode (balance (players g' (sender alice_wins)))) = 1100)
   \<and> (\<exists>g'. fightMonster alice_loses enrolled = Inr g'
         \<and> unat (battles (players g' (sender alice_loses))) = 1
         \<and> unat (victories (players g' (sender alice_loses))) = 0
         \<and> uint (decode (health (players g' (sender alice_loses)))) = 9)"
proof -
  have r: "enrolled = run (deployed 0) [(alice_wins, JoinGame)]"
    by (simp add: enrolled_def)
  have j: "joined (players enrolled (sender alice_wins))"
    "joined (players enrolled (sender alice_loses))"
    and b: "unat (battles (players enrolled (sender alice_wins))) < 2 ^ 64 - 1"
    "unat (battles (players enrolled (sender alice_loses))) < 2 ^ 64 - 1"
    by (simp_all add: sender_alice enrolled_player)
  have v: "unat (battles (players enrolled 1)) = 0" "unat (victories (players enrolled 1)) = 0"
    "unat (decode (balance (players enrolled 1))) = 1000"
    "uint (decode (health (players enrolled 1))) = 10"
    by (simp_all add: enrolled_player fhe_defs)
  have s: "random_scalar alice_wins (sender alice_wins) (battles (players enrolled (sender alice_wins))) = 90"
    "random_scalar alice_loses (sender alice_loses) (battles (players enrolled (sender alice_loses))) = 7"
    by (simp_all add: scalar_alice)
  have win: "\<exists>g'. fightMonster alice_wins enrolled = Inr g'
         \<and> unat (battles (players g' (sender alice_wins))) = 1
         \<and> unat (victories (players g' (sender alice_wins))) = 1
         \<and> unat (decode (balance (players g' (sender alice_wins)))) = 1100"
    using fight_effect [OF r j(1) b(1) s(1) [symmetric] refl]
    by (auto simp: sender_alice v)
  have lose: "\<exists>g'. fightMonster alice_loses enrolled = Inr g'
         \<and> unat (battles (players g' (sender alice_loses))) = 1
         \<and> unat (victories (players g' (sender alice_loses))) = 0
         \<and> uint (decode (health (players g' (sender alice_loses)))) = 9"
    using fight_effect [OF r j(2) b(2) s(2) [symmetric] refl]
    by (auto simp: sender_alice v)
  from r j(1) b(1) win lose show ?thesis by blast
qed

text \<open>
  C3 as stated fails where the encrypted addition wraps. The state is reachable: after
  joining and 42949662 victories of 100 coins each the balance decodes to 4294967200;
  one more victory (scalar 90, even, reward 100) leaves a balance that decodes to 4,
  which is not at least the balance before plus 10.
\<close>

theorem balance_wraps:
  "joined (players (run (deployed 0) winning_streak) (sender alice_wins))
   \<and> even (unat (random_scalar alice_wins (sender alice_wins)
         (battles (players (run (deployed 0) winning_streak) (sender alice_wins)))))
   \<and> unat (decode (balance (players (run (deployed 0) winning_streak) (sender alice_wins))))
        = 4294967200
   \<and> unat (decode (balance (players
         (transact (run (deployed 0) winning_streak) (alice_wins, FightMonster)) (sender alice_wins))))
        = 4"
proof -
  let ?g = "transact (deployed 0) (alice_wins, JoinGame)"
  have j: "joined (players ?g (sender alice_wins))"
    and z: "battles (players ?g (sender alice_wins)) = 0" "victories (players ?g (sender alice_wins)) = 0"
    and c: "decode (balance (players ?g (sender alice_wins))) = 1000"
    by (simp_all add: transact_def joinGame_def Let_def deployed_def zero_player_def fhe_defs const_defs)
  have h: "block_hash alice_wins a n = 90" for a n
    by (simp add: alice_wins_def)
  have vb: "unat (victories (players ?g (sender alice_wins))) \<le> unat (battles (players ?g (sender alice_wins)))"
    by (simp add: z)
  have "unat (battles (players ?g (sender alice_wins))) + 42949662 < 2 ^ 64"
    by (simp add: z)
  from fight_repeat [OF j h vb this]
  have 1: "joined (players (run (deployed 0) winning_streak) (sender alice_wins))"
    and 2: "unat (battles (players (run (deployed 0) winning_streak) (sender alice_wins))) = 42949662"
    and 3: "decode (balance (players (run (deployed 0) winning_streak) (sender alice_wins))) = 4294967200"
    by (simp_all add: winning_streak_def run_Cons z c)
  have 4: "unat (victories (players (run (deployed 0) winning_streak) (sender alice_wins)))
         \<le> unat (battles (players (run (deployed 0) winning_streak) (sender alice_wins)))"
    by (rule run_victories) (simp add: deployed_def zero_player_def)
  have r: "random_scalar alice_wins (sender alice_wins) n = 90" for n
    by (simp add: random_scalar_def h)
  from 2 have below: "unat (battles (players (run (deployed 0) winning_streak) (sender alice_wins))) < 2 ^ 64 - 1"
    by simp
  have "decode (balance (players
         (transact (run (deployed 0) winning_streak) (alice_wins, FightMonster)) (sender alice_wins))) = 4"
    by (simp add: fight_transact(2) [OF 1 below 4 refl] r 3 fhe_defs const_defs)
  with 1 3 show ?thesis
    by (simp add: r)
qed

subsection \<open>C4: joinGame\<close>

text \<open>
  Claim C4. For a caller whose record has \<open>joined = false\<close>, \<open>joinGame\<close> succeeds, and
  afterwards the record has \<open>joined = true\<close>, a balance that decodes to 1000, a health
  that decodes to 10, and all three counters 0.
\<close>

theorem joinGame_fresh:
  assumes "\<not> joined (players g (sender m))"
  shows "\<exists>g'. joinGame m g = Inr g'
           \<and> joined (players g' (sender m))
           \<and> unat (decode (balance (players g' (sender m)))) = 1000
           \<and> unat (decode (health (players g' (sender m)))) = 10
           \<and> battles (players g' (sender m)) = 0
           \<and> victories (players g' (sender m)) = 0
           \<and> heals (players g' (sender m)) = 0"
  using assms by (simp add: joinGame_def Let_def fhe_defs const_defs)

text \<open>C4 at the freshly deployed contract.\<close>

theorem joinGame_fresh_witness:
  "\<not> joined (players (deployed 0) (sender alice_wins))
   \<and> (\<exists>g'. joinGame alice_wins (deployed 0) = Inr g'
         \<and> joined (players g' (sender alice_wins))
         \<and> unat (decode (balance (players g' (sender alice_wins)))) = 1000
         \<and> unat (decode (health (players g' (sender alice_wins)))) = 10
         \<and> battles (players g' (sender alice_wins)) = 0
         \<and> victories (players g' (sender alice_wins)) = 0
         \<and> heals (players g' (sender alice_wins)) = 0)"
proof -
  have n: "\<not> joined (players (deployed 0) (sender alice_wins))"
    by (simp add: deployed_def zero_player_def)
  from n joinGame_fresh [OF n] show ?thesis by blast
qed

subsection \<open>C5: precondition failures\<close>

text \<open>
  Claim C5. \<open>joinGame\<close> by a caller who has joined fails with \<open>AlreadyJoined\<close>;
  \<open>fightMonster\<close> and \<open>heal\<close> by a caller who has not joined fail with \<open>NotJoined\<close>;
  \<open>getEncryptedBalance\<close>, \<open>getEncryptedHealth\<close> and \<open>getPlayerStats\<close> for an address that
  has not joined fail with \<open>PlayerNotFound\<close>. The failures are pairwise distinct (and
  distinct from the arithmetic panic), and the failed transaction leaves the whole
  state, hence every player record, as it was; the three getters are views and return
  no state at all.
\<close>

theorem precondition_failures:
  "(joined (players g (sender m)) \<longrightarrow>
      joinGame m g = Inl AlreadyJoined \<and> transact g (m, JoinGame) = g)
   \<and> (\<not> joined (players g (sender m)) \<longrightarrow>
      fightMonster m g = Inl NotJoined \<and> transact g (m, FightMonster) = g
      \<and> heal m g = Inl NotJoined \<and> transact g (m, Heal) = g)
   \<and> (\<not> joined (players g a) \<longrightarrow>
      getEncryptedBalance g a = Inl PlayerNotFound
      \<and> getEncryptedHealth g a = Inl PlayerNotFound
      \<and> getPlayerStats g a = Inl PlayerNotFound)
   \<and> distinct [AlreadyJoined, NotJoined, PlayerNotFound, ArithmeticOverflow]"
  by (simp add: joinGame_def fightMonster_def heal_def transact_def Let_def
      getEncryptedBalance_def getEncryptedHealth_def getPlayerStats_def
      AlreadyJoined_def NotJoined_def PlayerNotFound_def ArithmeticOverflow_def)

theorem precondition_failures_witness:
  "joined (players enrolled (sender alice_wins))
   \<and> joinGame alice_wins enrolled = Inl AlreadyJoined
   \<and> transact enrolled (alice_wins, JoinGame) = enrolled
   \<and> \<not> joined (players (deployed 0) (sender alice_wins))
   \<and> fightMonster alice_wins (deployed 0) = Inl NotJoined
   \<and> heal alice_wins (deployed 0) = Inl NotJoined
   \<and> \<not> joined (players (deployed 0) 2)
   \<and> getEncryptedBalance (deployed 0) 2 = Inl PlayerNotFound
   \<and> getEncryptedHealth (deployed 0) 2 = Inl PlayerNotFound
   \<and> getPlayerStats (deployed 0) 2 = Inl PlayerNotFound"
proof -
  have j: "joined (players enrolled (sender alice_wins))"
    by (simp add: sender_alice enrolled_player)
  have n: "\<not> joined (players (deployed 0) (sender alice_wins))" "\<not> joined (players (deployed 0) 2)"
    by (simp_all add: deployed_def zero_player_def)
  from j n precondition_failures [of enrolled alice_wins]
    precondition_failures [of "deployed 0" alice_wins 2]
  show ?thesis by simp
qed

subsection \<open>C6: the balance is never overdrawn\<close>

text \<open>
  Claim C6. In every reachable state the balance of every player record decodes to a
  non-negative integer, and the subtraction of \<open>heal\<close> never underflows: a successful
  \<open>heal\<close> debits 10 coins exactly when the health decodes below 10 and the balance to at
  least 10, and then the balance afterwards is, as an integer and without wrap-around,
  the balance before minus 10, which is not negative; otherwise it debits nothing.
\<close>

theorem heal_never_overdraws:
  "0 \<le> uint (decode (balance (players (run (deployed this) txs) a)))
   \<and> (heal m g = Inr g' \<longrightarrow>
        uint (decode (balance (players g' (sender m))))
          = uint (decode (balance (players g (sender m))))
            - (if decode (health (players g (sender m))) < 10
                  \<and> 10 \<le> decode (balance (players g (sender m))) then 10 else 0)
        \<and> 0 \<le> uint (decode (balance (players g (sender m))))
            - (if decode (health (players g (sender m))) < 10
                  \<and> 10 \<le> decode (balance (players g (sender m))) then 10 else 0))"
proof (intro conjI impI)
  show "0 \<le> uint (decode (balance (players (run (deployed this) txs) a)))"
    by simp
next
  assume ok: "heal m g = Inr g'"
  have exact: "uint (b - 10) = uint b - 10" if "10 \<le> b" for b :: uint32
    using that by uint_arith
  from ok show "uint (decode (balance (players g' (sender m))))
          = uint (decode (balance (players g (sender m))))
            - (if decode (health (players g (sender m))) < 10
                  \<and> 10 \<le> decode (balance (players g (sender m))) then 10 else 0)"
    by (auto simp: heal_def Let_def decode_heal_debit exact split: if_splits sum.splits)
  show "0 \<le> uint (decode (balance (players g (sender m))))
            - (if decode (health (players g (sender m))) < 10
                  \<and> 10 \<le> decode (balance (players g (sender m))) then 10 else 0)"
    by (simp add: word_le_def)
qed

text \<open>C6 at a concrete state: healing the wounded player takes her from 1000 to 990.\<close>

theorem heal_never_overdraws_witness:
  "heal alice_wins wounded = Inr (transact wounded (alice_wins, Heal))
   \<and> uint (decode (balance (players wounded (sender alice_wins)))) = 1000
   \<and> uint (decode (balance (players (transact wounded (alice_wins, Heal)) (sender alice_wins)))) = 990"
proof -
  have j: "joined (players wounded (sender alice_wins))"
    and b: "unat (heals (players wounded (sender alice_wins))) < 2 ^ 64 - 1"
    by (simp_all add: sender_alice wounded_player)
  have ok: "heal alice_wins wounded = Inr (transact wounded (alice_wins, Heal))"
    using j b by (rule heal_transact(1))
  have v: "decode (health (players wounded (sender alice_wins))) = 9"
    "decode (balance (players wounded (sender alice_wins))) = 1000"
    by (simp_all add: sender_alice wounded_values)
  from heal_never_overdraws [of 0 "[]" 1 alice_wins wounded "transact wounded (alice_wins, Heal)"] ok
  show ?thesis
    by (simp add: v)
qed

subsection \<open>C7: hasJoined\<close>

text \<open>
  Claim C7. \<open>hasJoined\<close> has no precondition (it returns a boolean for every address).
  At deployment it is false for every address, and after any sequence of transactions
  from any state it is true for an address exactly if it was true before or the
  sequence contains a \<open>joinGame\<close> call by that address: so it is false until the first
  such call, which succeeds, takes place, and true in every state after it; no
  transaction clears the flag.
\<close>

theorem hasJoined_history:
  "\<not> hasJoined (deployed this) a
   \<and> hasJoined (run g txs) a = (hasJoined g a \<or> a \<in> set (joiners txs))"
  by (simp add: hasJoined_def run_joined deployed_def zero_player_def)

subsection \<open>C8: permissions are granted on every successful call\<close>

text \<open>
  Claim C8. After every successful \<open>joinGame\<close>, \<open>fightMonster\<close> or \<open>heal\<close>, whatever the
  call did to the decoded values, the access-control list holds a grant on the
  caller's current balance ciphertext and on her current health ciphertext, each to
  the contract itself and to the caller.
\<close>

theorem grants_after_call:
  assumes "exec c m g = Inr g'"
  shows "{(handle_of (balance (players g' (sender m))), address_this g'),
          (handle_of (balance (players g' (sender m))), sender m),
          (handle_of (health (players g' (sender m))), address_this g'),
          (handle_of (health (players g' (sender m))), sender m)} \<subseteq> permissions g'"
  using assms
  by (cases c)
     (auto simp: joinGame_def heal_def fightMonster_def Let_def allowPlayer_def fhe_allow_def
       split: if_splits sum.splits)

text \<open>C8 for a heal that changes nothing: the freshly joined player has full health.\<close>

theorem grants_after_call_witness:
  "exec Heal alice_wins enrolled = Inr (transact enrolled (alice_wins, Heal))
   \<and> decode (health (players (transact enrolled (alice_wins, Heal)) (sender alice_wins)))
       = decode (health (players enrolled (sender alice_wins)))
   \<and> (handle_of (balance (players (transact enrolled (alice_wins, Heal)) (sender alice_wins))),
        address_this (transact enrolled (alice_wins, Heal)))
       \<in> permissions (transact enrolled (alice_wins, Heal))
   \<and> (handle_of (health (players (transact enrolled (alice_wins, Heal)) (sender alice_wins))),
        sender alice_wins)
       \<in> permissions (transact enrolled (alice_wins, Heal))"
proof -
  have j: "joined (players enrolled (sender alice_wins))"
    and b: "unat (heals (players enrolled (sender alice_wins))) < 2 ^ 64 - 1"
    by (simp_all add: sender_alice enrolled_player)
  have ok: "exec Heal alice_wins enrolled = Inr (transact enrolled (alice_wins, Heal))"
    using heal_transact(1) [OF j b] by simp
  have same: "decode (health (players (transact enrolled (alice_wins, Heal)) (sender alice_wins)))
       = decode (health (players enrolled (sender alice_wins)))"
    by (simp add: heal_transact(2) [OF j b] decode_heal_select)
       (simp add: sender_alice enrolled_player fhe_defs)
  from grants_after_call [OF ok] ok same show ?thesis
    by simp
qed

subsection \<open>C9: victories never exceed battles\<close>

text \<open>
  Claim C9. In every state reached from deployment by any sequence of transactions,
  every player record has \<open>victories \<le> battles\<close>.
\<close>

theorem victories_le_battles:
  "unat (victories (players (run (deployed this) txs) a))
     \<le> unat (battles (players (run (deployed this) txs) a))"
proof -
  have "unat (victories (players (deployed this) a)) \<le> unat (battles (players (deployed this) a))"
    by (simp add: deployed_def zero_player_def)
  then show ?thesis by (rule run_victories)
qed

subsection \<open>C10: what the calls leave alone\<close>

text \<open>
  Claim C10. A successful \<open>fightMonster\<close> that is a victory (even scalar) leaves the
  caller's health ciphertext, hence its decoded value, as it was; one that is a defeat
  leaves the caller's balance ciphertext as it was. Neither \<open>fightMonster\<close> nor \<open>heal\<close>
  changes the \<open>joined\<close> flag of any record, and \<open>fightMonster\<close> changes no \<open>heals\<close>
  counter.
\<close>

theorem calls_frame:
  "(fightMonster m g = Inr g' \<longrightarrow>
      (even (unat (random_scalar m (sender m) (battles (players g (sender m))))) \<longrightarrow>
          health (players g' (sender m)) = health (players g (sender m)))
      \<and> (odd (unat (random_scalar m (sender m) (battles (players g (sender m))))) \<longrightarrow>
          balance (players g' (sender m)) = balance (players g (sender m)))
      \<and> joined (players g' a) = joined (players g a)
      \<and> heals (players g' a) = heals (players g a))
   \<and> (heal m g = Inr g'' \<longrightarrow> joined (players g'' a) = joined (players g a))"
  by (auto simp: fightMonster_def heal_def Let_def victory_even reward_no_overflow
      split: if_splits sum.splits)

text \<open>C10 at the freshly joined player: a victory, a defeat and a heal.\<close>

theorem calls_frame_witness:
  "fightMonster alice_wins enrolled = Inr (transact enrolled (alice_wins, FightMonster))
   \<and> health (players (transact enrolled (alice_wins, FightMonster)) 1) = health (players enrolled 1)
   \<and> fightMonster alice_loses enrolled = Inr (transact enrolled (alice_loses, FightMonster))
   \<and> balance (players (transact enrolled (alice_loses, FightMonster)) 1) = balance (players enrolled 1)
   \<and> heals (players (transact enrolled (alice_loses, FightMonster)) 1) = heals (players enrolled 1)
   \<and> heal alice_wins enrolled = Inr (transact enrolled (alice_wins, Heal))
   \<and> joined (players (transact enrolled (alice_wins, Heal)) 1)"
proof -
  have j: "joined (players enrolled (sender alice_wins))"
    "joined (players enrolled (sender alice_loses))"
    and b: "unat (battles (players enrolled (sender alice_wins))) < 2 ^ 64 - 1"
    "unat (battles (players enrolled (sender alice_loses))) < 2 ^ 64 - 1"
    and vb: "unat (victories (players enrolled (sender alice_wins)))
              \<le> unat (battles (players enrolled (sender alice_wins)))"
    "unat (victories (players enrolled (sender alice_loses)))
              \<le> unat (battles (players enrolled (sender alice_loses)))"
    and h: "unat (heals (players enrolled (sender alice_wins))) < 2 ^ 64 - 1"
    by (simp_all add: sender_alice enrolled_player)
  have win: "fightMonster alice_wins enrolled = Inr (transact enrolled (alice_wins, FightMonster))"
    using j(1) b(1) vb(1) refl by (rule fight_transact(1))
  have lose: "fightMonster alice_loses enrolled = Inr (transact enrolled (alice_loses, FightMonster))"
    using j(2) b(2) vb(2) refl by (rule fight_transact(1))
  have mend: "heal alice_wins enrolled = Inr (transact enrolled (alice_wins, Heal))"
    using j(1) h by (rule heal_transact(1))
  from calls_frame [of alice_wins enrolled "transact enrolled (alice_wins, FightMonster)" 1
      "transact enrolled (alice_wins, Heal)"]
    calls_frame [of alice_loses enrolled "transact enrolled (alice_loses, FightMonster)" 1
      "transact enrolled (alice_wins, Heal)"]
    win lose mend
  show ?thesis
    by (simp add: scalar_alice sender_alice enrolled_player)
qed

end
